theory Spec2Isabelle
  imports Main
begin

section \<open>The Konami controller (packages/controller/src/konami-controller.ts)\<close>

text \<open>
  The controller is a class with private mutable fields, a window key listener and one
  deferred callback registered with \<^verbatim>\<open>setTimeout\<close>. The model threads one record through
  every method. It holds the fields of the class together with the part of the host
  environment the methods act on: whether \<^verbatim>\<open>handleKeydown\<close> is registered on the window,
  the timers pending in the timer facility, the events dispatched on the host (in
  order), and the number of \<^verbatim>\<open>requestUpdate\<close> calls.

  Key identifiers are strings, the position is a natural number (it starts at 0 and is
  only incremented or zeroed), the timeout is an integer number of milliseconds.
  Deadlines are not modelled: a pending timer may fire at any moment, which covers every
  schedule of the real clock.
\<close>

subsection \<open>Data\<close>

text \<open>The three custom events of \<^verbatim>\<open>KonamiControllerEvents\<close>; progress carries
  \<^verbatim>\<open>{position, total}\<close>.\<close>

datatype notification =
    KonamiActivated
  | KonamiProgress nat nat
  | KonamiReset

text \<open>The two properties of a \<^verbatim>\<open>KeyboardEvent\<close> that the handler reads.\<close>

record keyboard_event =
  key :: string
  repeat :: bool

text \<open>The constructor's \<^verbatim>\<open>options\<close> argument: both properties are optional.\<close>

record options =
  opt_code :: "string list option"
  opt_timeout :: "int option"

record world =
  code :: "string list"
  currentPosition :: nat
  timeout :: int
  timeoutRef :: "nat option"
  listening :: bool
  timers :: "(nat \<times> int) list"
  nextTimerId :: nat
  dispatched :: "notification list"
  updateRequests :: nat

subsection \<open>The host and the timer facility\<close>

text \<open>\<^verbatim>\<open>emit\<close> dispatches a custom event on the host (lines 43-54).\<close>

definition emit :: "notification \<Rightarrow> world \<Rightarrow> world" where
  "emit n w = w\<lparr>dispatched := dispatched w @ [n]\<rparr>"

definition requestUpdate :: "world \<Rightarrow> world" where
  "requestUpdate w = w\<lparr>updateRequests := Suc (updateRequests w)\<rparr>"

text \<open>
  \<^verbatim>\<open>clearTimeout(id)\<close> removes the pending timer with that id; with \<^verbatim>\<open>undefined\<close>, or
  with the id of a timer that has fired or was cleared before, it does nothing.
\<close>

definition clearTimeout :: "nat option \<Rightarrow> world \<Rightarrow> world" where
  "clearTimeout r w =
     (case r of
        None \<Rightarrow> w
      | Some h \<Rightarrow> w\<lparr>timers := filter (\<lambda>t. fst t \<noteq> h) (timers w)\<rparr>)"

text \<open>\<^verbatim>\<open>setTimeout(callback, delay)\<close> registers a timer under a fresh id and returns
  the id. The only callback the controller registers is \<^verbatim>\<open>() => this.reset()\<close>, so a
  timer is its id and its delay.\<close>

definition setTimeout :: "int \<Rightarrow> world \<Rightarrow> nat \<times> world" where
  "setTimeout d w =
     (nextTimerId w,
      w\<lparr>timers := timers w @ [(nextTimerId w, d)], nextTimerId := Suc (nextTimerId w)\<rparr>)"

subsection \<open>The controller\<close>

definition defaultCode :: "string list" where
  "defaultCode =
     [''ArrowUp'', ''ArrowUp'', ''ArrowDown'', ''ArrowDown'',
      ''ArrowLeft'', ''ArrowRight'', ''ArrowLeft'', ''ArrowRight'', ''b'', ''a'']"

text \<open>
  The constructor (lines 23-38). \<^verbatim>\<open>options?.code || [...]\<close> falls back to the default
  only when the property is absent: every array, the empty one too, is truthy.
  \<^verbatim>\<open>options?.timeout || 2000\<close> falls back when the property is absent or 0. There is
  no \<^verbatim>\<open>throw\<close> in the constructor, so the model is a total function that returns the
  new controller, in an environment with no listener, no timer and no event yet.
\<close>

definition "constructor" :: "options \<Rightarrow> world" where
  "constructor opts =
     \<lparr>code = (case opt_code opts of Some c \<Rightarrow> c | None \<Rightarrow> defaultCode),
      currentPosition = 0,
      timeout = (case opt_timeout opts of
                   Some t \<Rightarrow> if t = 0 then 2000 else t
                 | None \<Rightarrow> 2000),
      timeoutRef = None,
      listening = False,
      timers = [],
      nextTimerId = 1,
      dispatched = [],
      updateRequests = 0\<rparr>"

text \<open>\<^verbatim>\<open>hostConnected\<close> (lines 59-61) and \<^verbatim>\<open>hostDisconnected\<close> (lines 63-66).
  Adding a listener that is registered already, removing one that is not, are no-ops of
  the DOM.\<close>

definition hostConnected :: "world \<Rightarrow> world" where
  "hostConnected w = w\<lparr>listening := True\<rparr>"

definition hostDisconnected :: "world \<Rightarrow> world" where
  "hostDisconnected w = (let w1 = w\<lparr>listening := False\<rparr> in clearTimeout (timeoutRef w1) w1)"

text \<open>\<^verbatim>\<open>reset\<close> (lines 103-112).\<close>

definition reset :: "world \<Rightarrow> world" where
  "reset w =
     (let isPartial = 0 < currentPosition w;
          w1 = w\<lparr>currentPosition := 0\<rparr>;
          w2 = clearTimeout (timeoutRef w1) w1
      in if isPartial then emit KonamiReset w2 else w2)"

text \<open>The getters (lines 118-128). \<^verbatim>\<open>this.code[this.currentPosition]\<close> is
  \<^verbatim>\<open>undefined\<close> when the position is not an index of the array: \<open>None\<close>.\<close>

definition progress :: "world \<Rightarrow> nat" where
  "progress w = currentPosition w"

definition total :: "world \<Rightarrow> nat" where
  "total w = length (code w)"

definition nextExpectedKey :: "world \<Rightarrow> string option" where
  "nextExpectedKey w =
     (if currentPosition w < length (code w) then Some (code w ! currentPosition w) else None)"

text \<open>
  \<^verbatim>\<open>handleKeydown\<close> (lines 68-98) in its three parts: the guards (lines 70-78), the
  advance (lines 80-90) and the end check (lines 92-98).
\<close>

definition advance :: "world \<Rightarrow> world" where
  "advance w =
     (let w1 = w\<lparr>currentPosition := Suc (currentPosition w)\<rparr>;
          w2 = clearTimeout (timeoutRef w1) w1;
          (h, w3) = setTimeout (timeout w2) w2;
          w4 = w3\<lparr>timeoutRef := Some h\<rparr>
      in emit (KonamiProgress (currentPosition w4) (length (code w4))) w4)"

definition endCheck :: "world \<Rightarrow> world" where
  "endCheck w =
     (if currentPosition w = length (code w)
      then reset (requestUpdate (emit KonamiActivated w))
      else w)"

definition handleKeydown :: "keyboard_event \<Rightarrow> world \<Rightarrow> world" where
  "handleKeydown e w =
     (if repeat e then w
      else if Some (key e) \<noteq> nextExpectedKey w then reset w
      else endCheck (advance w))"

subsection \<open>What the environment does to the controller\<close>

text \<open>
  A keydown on the window reaches the handler only while it is registered. A timer fires
  only while it is pending: it leaves the timer facility and its callback runs
  \<^verbatim>\<open>reset\<close>. The host calls the two lifecycle methods.
\<close>

definition windowKeydown :: "keyboard_event \<Rightarrow> world \<Rightarrow> world" where
  "windowKeydown e w = (if listening w then handleKeydown e w else w)"

definition timerFires :: "nat \<Rightarrow> world \<Rightarrow> world" where
  "timerFires h w =
     (if h \<in> set (map fst (timers w))
      then reset (w\<lparr>timers := filter (\<lambda>t. fst t \<noteq> h) (timers w)\<rparr>)
      else w)"

datatype event =
    Keydown keyboard_event
  | TimerFires nat
  | HostConnected
  | HostDisconnected

fun step :: "event \<Rightarrow> world \<Rightarrow> world" where
  "step (Keydown e) w = windowKeydown e w"
| "step (TimerFires h) w = timerFires h w"
| "step HostConnected w = hostConnected w"
| "step HostDisconnected w = hostDisconnected w"

definition run :: "event list \<Rightarrow> world \<Rightarrow> world" where
  "run evs w = fold step evs w"

text \<open>Pressing the keys of a list one after the other, none of them a repeat.\<close>

definition press :: "string \<Rightarrow> keyboard_event" where
  "press k = \<lparr>key = k, repeat = False\<rparr>"

definition feed :: "string list \<Rightarrow> world \<Rightarrow> world" where
  "feed ks w = fold (\<lambda>k. handleKeydown (press k)) ks w"

text \<open>
  The timer discipline of the controller: no timer is pending, or exactly one is, the
  field \<^verbatim>\<open>timeoutRef\<close> holds its id and the position is positive.
\<close>

definition timer_inv :: "world \<Rightarrow> bool" where
  "timer_inv w =
     (case timers w of
        [] \<Rightarrow> True
      | [t] \<Rightarrow> timeoutRef w = Some (fst t) \<and> 0 < currentPosition w
      | _ \<Rightarrow> False)"

text \<open>Whether a notification is a progress event.\<close>

definition isProgress :: "notification \<Rightarrow> bool" where
  "isProgress n = (case n of KonamiProgress _ _ \<Rightarrow> True | _ \<Rightarrow> False)"

section \<open>Field-wise effect of the methods\<close>

lemmas prim_defs = emit_def requestUpdate_def clearTimeout_def setTimeout_def

lemmas eval_defs =
  prim_defs constructor_def hostConnected_def hostDisconnected_def reset_def
  nextExpectedKey_def advance_def endCheck_def handleKeydown_def windowKeydown_def
  timerFires_def run_def press_def feed_def timer_inv_def isProgress_def
  progress_def total_def defaultCode_def Let_def

lemma reset_fields:
  "currentPosition (reset w) = 0"
  "code (reset w) = code w"
  "timeout (reset w) = timeout w"
  "timeoutRef (reset w) = timeoutRef w"
  "listening (reset w) = listening w"
  "nextTimerId (reset w) = nextTimerId w"
  "updateRequests (reset w) = updateRequests w"
  "timers (reset w) = timers (clearTimeout (timeoutRef w) w)"
  "dispatched (reset w) = dispatched w @ (if 0 < currentPosition w then [KonamiReset] else [])"
  by (simp_all add: reset_def prim_defs Let_def split: option.splits)

lemma advance_fields:
  "currentPosition (advance w) = Suc (currentPosition w)"
  "code (advance w) = code w"
  "timeout (advance w) = timeout w"
  "timeoutRef (advance w) = Some (nextTimerId w)"
  "listening (advance w) = listening w"
  "nextTimerId (advance w) = Suc (nextTimerId w)"
  "updateRequests (advance w) = updateRequests w"
  "timers (advance w) = timers (clearTimeout (timeoutRef w) w) @ [(nextTimerId w, timeout w)]"
  "dispatched (advance w) =
     dispatched w @ [KonamiProgress (Suc (currentPosition w)) (length (code w))]"
  by (simp_all add: advance_def prim_defs Let_def split: option.splits)

lemma endCheck_fields:
  "currentPosition (endCheck w) =
     (if currentPosition w = length (code w) then 0 else currentPosition w)"
  "code (endCheck w) = code w"
  "timeout (endCheck w) = timeout w"
  "timeoutRef (endCheck w) = timeoutRef w"
  "listening (endCheck w) = listening w"
  "nextTimerId (endCheck w) = nextTimerId w"
  "timers (endCheck w) =
     (if currentPosition w = length (code w) then timers (clearTimeout (timeoutRef w) w)
      else timers w)"
  "dispatched (endCheck w) = dispatched w @
     (if currentPosition w = length (code w)
      then KonamiActivated # (if 0 < currentPosition w then [KonamiReset] else [])
      else [])"
  by (simp_all add: endCheck_def reset_fields prim_defs split: option.splits)

lemma hostDisconnected_fields:
  "currentPosition (hostDisconnected w) = currentPosition w"
  "code (hostDisconnected w) = code w"
  "timeout (hostDisconnected w) = timeout w"
  "timeoutRef (hostDisconnected w) = timeoutRef w"
  "listening (hostDisconnected w) = False"
  "nextTimerId (hostDisconnected w) = nextTimerId w"
  "updateRequests (hostDisconnected w) = updateRequests w"
  "timers (hostDisconnected w) = timers (clearTimeout (timeoutRef w) w)"
  "dispatched (hostDisconnected w) = dispatched w"
  by (simp_all add: hostDisconnected_def clearTimeout_def Let_def split: option.splits)

section \<open>The sequence is never changed\<close>

lemma step_code: "code (step ev w) = code w"
  by (cases ev)
     (simp_all add: windowKeydown_def handleKeydown_def timerFires_def reset_fields
        endCheck_fields advance_fields hostConnected_def hostDisconnected_fields)

lemma run_code: "code (run evs w) = code w"
  by (induction evs arbitrary: w) (simp_all add: run_def step_code)

section \<open>The timer discipline is kept by every event\<close>

lemma timer_inv_cases:
  "timer_inv w \<Longrightarrow>
   timers w = [] \<or>
   (\<exists>h d. timers w = [(h, d)] \<and> timeoutRef w = Some h \<and> 0 < currentPosition w)"
  by (auto simp: timer_inv_def split: list.splits)

lemma timer_inv_clear:
  "timer_inv w \<Longrightarrow> timers (clearTimeout (timeoutRef w) w) = []"
  by (auto dest!: timer_inv_cases simp: clearTimeout_def split: option.splits)

lemma timer_inv_empty: "timers w = [] \<Longrightarrow> timer_inv w"
  by (simp add: timer_inv_def)

lemma timers_reset: "timer_inv w \<Longrightarrow> timers (reset w) = []"
  by (simp add: reset_fields timer_inv_clear)

lemma timer_inv_advance: "timer_inv w \<Longrightarrow> timer_inv (advance w)"
  by (simp add: timer_inv_def advance_fields timer_inv_clear)

lemma timers_endCheck_advance:
  "timer_inv w \<Longrightarrow>
   timers (endCheck (advance w)) =
     (if Suc (currentPosition w) = length (code w) then [] else [(nextTimerId w, timeout w)])"
  using timer_inv_clear[OF timer_inv_advance, of w]
  by (simp add: endCheck_fields advance_fields timer_inv_clear)

lemma timer_inv_endCheck_advance:
  assumes "timer_inv w"
  shows "timer_inv (endCheck (advance w))"
proof (cases "Suc (currentPosition w) = length (code w)")
  case True
  then show ?thesis
    using assms by (simp add: timer_inv_empty timers_endCheck_advance)
next
  case False
  then have "endCheck (advance w) = advance w"
    by (simp add: endCheck_def advance_fields)
  then show ?thesis
    using assms by (simp add: timer_inv_advance)
qed

lemma timer_inv_handleKeydown: "timer_inv w \<Longrightarrow> timer_inv (handleKeydown e w)"
  by (simp add: handleKeydown_def timer_inv_empty timers_reset timer_inv_endCheck_advance)

lemma timerFires_pending:
  assumes "timer_inv w" and "h \<in> set (map fst (timers w))"
  shows "timers (timerFires h w) = []"
    and "currentPosition (timerFires h w) = 0"
    and "dispatched (timerFires h w) = dispatched w @ [KonamiReset]"
proof -
  from assms obtain d where t: "timers w = [(h, d)]" and p: "0 < currentPosition w"
    by (auto dest!: timer_inv_cases)
  show "timers (timerFires h w) = []"
    using t by (simp add: timerFires_def reset_fields clearTimeout_def split: option.splits)
  show "currentPosition (timerFires h w) = 0"
    using t by (simp add: timerFires_def reset_fields)
  show "dispatched (timerFires h w) = dispatched w @ [KonamiReset]"
    using t p by (simp add: timerFires_def reset_fields)
qed

lemma timer_inv_timerFires: "timer_inv w \<Longrightarrow> timer_inv (timerFires h w)"
proof (cases "h \<in> set (map fst (timers w))")
  case True
  assume "timer_inv w"
  then show ?thesis using True by (simp add: timer_inv_empty timerFires_pending(1))
next
  case False
  assume "timer_inv w"
  then show ?thesis using False by (simp add: timerFires_def)
qed

lemma timers_hostDisconnected: "timer_inv w \<Longrightarrow> timers (hostDisconnected w) = []"
  by (simp add: hostDisconnected_fields timer_inv_clear)

lemma timer_inv_hostConnected: "timer_inv w \<Longrightarrow> timer_inv (hostConnected w)"
  by (simp add: hostConnected_def timer_inv_def split: list.splits)

lemma timer_inv_step: "timer_inv w \<Longrightarrow> timer_inv (step ev w)"
  by (cases ev)
     (simp_all add: windowKeydown_def timer_inv_handleKeydown timer_inv_timerFires
        timer_inv_empty timers_hostDisconnected timer_inv_hostConnected)

lemma timer_inv_run: "timer_inv w \<Longrightarrow> timer_inv (run evs w)"
  by (induction evs arbitrary: w) (simp_all add: run_def timer_inv_step)

lemma timer_inv_constructor: "timer_inv (constructor opts)"
  by (simp add: timer_inv_def constructor_def)

lemma timer_inv_reachable: "timer_inv (run evs (constructor opts))"
  by (simp add: timer_inv_run timer_inv_constructor)

section \<open>The position stays below the length\<close>

lemma handleKeydown_position:
  assumes "currentPosition w < length (code w)"
  shows "currentPosition (handleKeydown e w) < length (code w)"
  using assms
  by (auto simp: handleKeydown_def reset_fields endCheck_fields advance_fields)

lemma step_position:
  assumes "currentPosition w < length (code w)"
  shows "currentPosition (step ev w) < length (code w)"
  using assms
  by (cases ev)
     (auto simp: windowKeydown_def handleKeydown_position timerFires_def reset_fields
        hostConnected_def hostDisconnected_fields)

lemma run_position:
  "currentPosition w < length (code w) \<Longrightarrow> currentPosition (run evs w) < length (code w)"
proof (induction evs arbitrary: w)
  case Nil
  then show ?case by (simp add: run_def)
next
  case (Cons ev evs)
  have "currentPosition (step ev w) < length (code (step ev w))"
    using Cons.prems by (simp add: step_position step_code)
  from Cons.IH[OF this] show ?case
    by (simp add: run_def step_code)
qed

section \<open>Pressing the keys of the sequence\<close>

lemma completing_key:
  assumes "\<not> repeat e" and "nextExpectedKey w = Some (key e)"
    and "Suc (currentPosition w) = length (code w)"
  shows "dispatched (handleKeydown e w) =
           dispatched w @
           [KonamiProgress (length (code w)) (length (code w)), KonamiActivated, KonamiReset]"
    and "currentPosition (handleKeydown e w) = 0"
proof -
  from assms(3) have ne: "0 < length (code w)" by arith
  show "dispatched (handleKeydown e w) =
           dispatched w @
           [KonamiProgress (length (code w)) (length (code w)), KonamiActivated, KonamiReset]"
    using assms ne by (simp add: handleKeydown_def endCheck_fields advance_fields)
  show "currentPosition (handleKeydown e w) = 0"
    using assms by (simp add: handleKeydown_def endCheck_fields advance_fields)
qed

lemma feed_suffix:
  "code w = pre @ ks \<Longrightarrow> currentPosition w = length pre \<Longrightarrow> ks \<noteq> [] \<Longrightarrow>
   dispatched (feed ks w) =
     dispatched w @
     map (\<lambda>i. KonamiProgress i (length (code w))) [Suc (length pre)..<Suc (length (code w))] @
     [KonamiActivated, KonamiReset] \<and>
   currentPosition (feed ks w) = 0"
proof (induction ks arbitrary: w pre)
  case Nil
  then show ?case by simp
next
  case (Cons k ks)
  have nk: "nextExpectedKey w = Some (key (press k))" and nr: "\<not> repeat (press k)"
    using Cons.prems by (simp_all add: nextExpectedKey_def press_def)
  have fd: "feed (k # ks) w = feed ks (handleKeydown (press k) w)"
    by (simp add: feed_def)
  show ?case
  proof (cases "ks = []")
    case True
    with Cons.prems have last: "Suc (currentPosition w) = length (code w)" by simp
    have "feed (k # ks) w = handleKeydown (press k) w"
      using True by (simp add: feed_def)
    then show ?thesis
      using completing_key[OF nr nk last] Cons.prems True by simp
  next
    case False
    with Cons.prems have notlast: "Suc (currentPosition w) < length (code w)"
      by (cases ks) simp_all
    have hk: "handleKeydown (press k) w = advance w"
      using nr nk notlast by (simp add: handleKeydown_def endCheck_def advance_fields)
    have c: "code (advance w) = (pre @ [k]) @ ks"
      using Cons.prems by (simp add: advance_fields)
    have p: "currentPosition (advance w) = length (pre @ [k])"
      using Cons.prems by (simp add: advance_fields)
    from Cons.IH[OF c p False]
    have ih: "dispatched (feed ks (advance w)) =
        dispatched (advance w) @
        map (\<lambda>i. KonamiProgress i (length (code w)))
          [Suc (Suc (length pre))..<Suc (length (code w))] @
        [KonamiActivated, KonamiReset]"
      and ih0: "currentPosition (feed ks (advance w)) = 0"
      by (simp_all add: advance_fields del: upt_Suc)
    have up: "[Suc (length pre)..<Suc (length (code w))] =
        Suc (length pre) # [Suc (Suc (length pre))..<Suc (length (code w))]"
    proof -
      have "Suc (length pre) < Suc (length (code w))"
        using Cons.prems by simp
      then show ?thesis by (rule upt_conv_Cons)
    qed
    show ?thesis
      using ih ih0 Cons.prems(2) by (simp add: fd hk up advance_fields del: upt_Suc)
  qed
qed

lemma feed_code_trace:
  assumes "code w \<noteq> []" and "currentPosition w = 0"
  shows "dispatched (feed (code w) w) =
           dispatched w @
           map (\<lambda>i. KonamiProgress i (length (code w))) [1..<Suc (length (code w))] @
           [KonamiActivated, KonamiReset]"
    and "currentPosition (feed (code w) w) = 0"
  using feed_suffix[of w "[]" "code w"] assms by simp_all

section \<open>A detached controller is frozen\<close>

lemma frozen_step:
  assumes "\<not> listening w" and "timers w = []" and "ev \<noteq> HostConnected"
  shows "step ev w = w"
  using assms
  by (cases ev)
     (simp_all add: windowKeydown_def timerFires_def hostDisconnected_def clearTimeout_def
        Let_def split: option.splits)

lemma frozen_run:
  assumes "\<not> listening w" and "timers w = []" and "HostConnected \<notin> set evs"
  shows "run evs w = w"
  using assms
proof (induction evs)
  case Nil
  then show ?case by (simp add: run_def)
next
  case (Cons ev evs)
  then have "step ev w = w" by (auto intro: frozen_step)
  with Cons show ?case by (simp add: run_def)
qed

lemma hostDisconnected_idem: "hostDisconnected (hostDisconnected w) = hostDisconnected w"
  by (simp add: hostDisconnected_def clearTimeout_def Let_def split: option.splits)

section \<open>A controller with an empty sequence\<close>

lemma empty_step:
  assumes "code w = []" and "currentPosition w = 0"
  shows "currentPosition (step ev w) = 0 \<and> dispatched (step ev w) = dispatched w"
  using assms
  by (cases ev)
     (simp_all add: windowKeydown_def handleKeydown_def nextExpectedKey_def timerFires_def
        reset_fields hostConnected_def hostDisconnected_fields)

lemma empty_run:
  assumes "code w = []" and "currentPosition w = 0"
  shows "currentPosition (run evs w) = 0 \<and> dispatched (run evs w) = dispatched w"
  using assms
proof (induction evs arbitrary: w)
  case Nil
  then show ?case by (simp add: run_def)
next
  case (Cons ev evs)
  have s: "currentPosition (step ev w) = 0" "dispatched (step ev w) = dispatched w"
    using empty_step[OF Cons.prems] by simp_all
  have "code (step ev w) = []"
    using Cons.prems by (simp add: step_code)
  from Cons.IH[OF this s(1)] s(2) show ?case
    by (simp add: run_def)
qed

section \<open>The claims\<close>

subsection \<open>C1: completing the sequence\<close>

text \<open>
  Claim C1. When a correct key brings the position up to the length of the sequence, the
  controller emits the activated notification and then zeroes the position and cancels
  the timer without emitting a reset notification.

  The code zeroes the position and cancels the timer by calling \<^verbatim>\<open>reset\<close> (line 96)
  while the position still equals the length, which is positive; \<^verbatim>\<open>reset\<close> therefore
  takes its \<^verbatim>\<open>isPartial\<close> branch and emits the reset notification after the activated
  one. For the sequence a, b and the timeout 500: after the key a, pressing b dispatches
  progress 2/2, activated and then reset; the position is 0 and no timer is pending.
\<close>

theorem completing_key_dispatches_reset:
  "dispatched (handleKeydown (press ''b'')
     (feed [''a''] (constructor \<lparr>opt_code = Some [''a'', ''b''], opt_timeout = Some 500\<rparr>))) =
     [KonamiProgress 1 2, KonamiProgress 2 2, KonamiActivated, KonamiReset] \<and>
   currentPosition (handleKeydown (press ''b'')
     (feed [''a''] (constructor \<lparr>opt_code = Some [''a'', ''b''], opt_timeout = Some 500\<rparr>))) = 0 \<and>
   timers (handleKeydown (press ''b'')
     (feed [''a''] (constructor \<lparr>opt_code = Some [''a'', ''b''], opt_timeout = Some 500\<rparr>))) = []"
  by (simp add: eval_defs)

subsection \<open>C2: an empty sequence at construction\<close>

text \<open>
  Claim C2, as stated: constructing the controller with an explicitly supplied empty
  sequence is rejected at construction time. The constructor has no check and no
  \<^verbatim>\<open>throw\<close>: with the empty sequence it returns a controller whose sequence is empty.
\<close>

theorem constructor_accepts_empty_code:
  "constructor \<lparr>opt_code = Some [], opt_timeout = None\<rparr> =
     \<lparr>code = [], currentPosition = 0, timeout = 2000, timeoutRef = None, listening = False,
      timers = [], nextTimerId = 1, dispatched = [], updateRequests = 0\<rparr>"
  by (simp add: constructor_def)

text \<open>
  Claim C2, amended: the constructor validates nothing. Whatever sequence is supplied
  explicitly, the empty one included, is stored as it is and a controller is returned,
  at position 0 and with the length of the supplied sequence as its total.
\<close>

theorem constructor_stores_supplied_code:
  "opt_code opts = Some c \<Longrightarrow>
   code (constructor opts) = c \<and> total (constructor opts) = length c \<and>
   progress (constructor opts) = 0"
  by (simp add: constructor_def total_def progress_def)

theorem constructor_stores_supplied_code_witness:
  "opt_code \<lparr>opt_code = Some [], opt_timeout = Some 1000\<rparr> = Some [] \<and>
   code (constructor \<lparr>opt_code = Some [], opt_timeout = Some 1000\<rparr>) = [] \<and>
   total (constructor \<lparr>opt_code = Some [], opt_timeout = Some 1000\<rparr>) = 0 \<and>
   progress (constructor \<lparr>opt_code = Some [], opt_timeout = Some 1000\<rparr>) = 0"
  using constructor_stores_supplied_code
    [of "\<lparr>opt_code = Some [], opt_timeout = Some 1000\<rparr>" "[]"]
  by simp

subsection \<open>C3: the whole sequence\<close>

text \<open>
  Claim C3. For every non-empty sequence of length N and every timeout, starting at
  position 0 and pressing exactly the keys of the sequence in order, none a repeat and
  no timer firing in between: the progress notifications emitted are those of the
  positions 1 to N, in order, one per key; exactly one activated notification is
  emitted; what precedes the activated notification is exactly the N progress
  notifications; and the position is 0 at the end.
\<close>

theorem full_sequence_activates:
  assumes "code w \<noteq> []" and "currentPosition w = 0"
  shows "filter isProgress (drop (length (dispatched w)) (dispatched (feed (code w) w))) =
           map (\<lambda>i. KonamiProgress i (length (code w))) [1..<Suc (length (code w))] \<and>
         filter (\<lambda>n. n = KonamiActivated)
             (drop (length (dispatched w)) (dispatched (feed (code w) w))) =
           [KonamiActivated] \<and>
         takeWhile (\<lambda>n. n \<noteq> KonamiActivated)
             (drop (length (dispatched w)) (dispatched (feed (code w) w))) =
           map (\<lambda>i. KonamiProgress i (length (code w))) [1..<Suc (length (code w))] \<and>
         currentPosition (feed (code w) w) = 0"
proof -
  let ?ps = "map (\<lambda>i. KonamiProgress i (length (code w))) [1..<Suc (length (code w))]"
  have tr: "drop (length (dispatched w)) (dispatched (feed (code w) w)) =
              ?ps @ [KonamiActivated, KonamiReset]"
    and z: "currentPosition (feed (code w) w) = 0"
    using feed_code_trace[OF assms] by simp_all
  have f1: "filter isProgress ?ps = ?ps"
    by (simp add: filter_map o_def isProgress_def del: upt_Suc)
  have f2: "filter (\<lambda>n. n = KonamiActivated) ?ps = []"
    by (simp add: filter_map o_def del: upt_Suc)
  have t: "takeWhile (\<lambda>n. n \<noteq> KonamiActivated) (?ps @ [KonamiActivated, KonamiReset]) = ?ps"
    by (subst takeWhile_append2) (auto simp del: upt_Suc)
  show ?thesis
    unfolding tr using f1 f2 t z by (simp add: isProgress_def del: upt_Suc)
qed

theorem full_sequence_activates_witness:
  "code (constructor \<lparr>opt_code = None, opt_timeout = Some 1000\<rparr>) \<noteq> [] \<and>
   currentPosition (constructor \<lparr>opt_code = None, opt_timeout = Some 1000\<rparr>) = 0 \<and>
   filter isProgress
     (dispatched (feed defaultCode (constructor \<lparr>opt_code = None, opt_timeout = Some 1000\<rparr>))) =
     [KonamiProgress 1 10, KonamiProgress 2 10, KonamiProgress 3 10, KonamiProgress 4 10,
      KonamiProgress 5 10, KonamiProgress 6 10, KonamiProgress 7 10, KonamiProgress 8 10,
      KonamiProgress 9 10, KonamiProgress 10 10] \<and>
   filter (\<lambda>n. n = KonamiActivated)
     (dispatched (feed defaultCode (constructor \<lparr>opt_code = None, opt_timeout = Some 1000\<rparr>))) =
     [KonamiActivated] \<and>
   currentPosition (feed defaultCode (constructor \<lparr>opt_code = None, opt_timeout = Some 1000\<rparr>)) = 0"
proof -
  have c: "code (constructor \<lparr>opt_code = None, opt_timeout = Some 1000\<rparr>) = defaultCode"
    by (simp add: constructor_def)
  have p: "currentPosition (constructor \<lparr>opt_code = None, opt_timeout = Some 1000\<rparr>) = 0"
    and d: "dispatched (constructor \<lparr>opt_code = None, opt_timeout = Some 1000\<rparr>) = []"
    by (simp_all add: constructor_def)
  have n: "defaultCode \<noteq> []" and l: "length defaultCode = 10"
    by (simp_all add: defaultCode_def)
  have u: "[Suc 0..<11] = [1, 2, 3, 4, 5, 6, 7, 8, 9, 10::nat]"
    by code_simp
  show ?thesis
    using full_sequence_activates[of "constructor \<lparr>opt_code = None, opt_timeout = Some 1000\<rparr>"]
    by (simp add: c p d n l u del: upt_Suc)
qed

subsection \<open>C4: repeats\<close>

text \<open>
  Claim C4. For every state of the controller and every key, a key event whose repeat
  flag is set changes nothing: the position, the pending timer and all other state are
  the same, and no notification is emitted (the dispatched events are part of the
  state). The same holds for the event as delivered through the window.
\<close>

theorem repeat_key_ignored:
  "repeat e \<Longrightarrow> handleKeydown e w = w \<and> windowKeydown e w = w"
  by (simp add: handleKeydown_def windowKeydown_def)

theorem repeat_key_ignored_witness:
  "repeat \<lparr>key = ''ArrowUp'', repeat = True\<rparr> \<and>
   handleKeydown \<lparr>key = ''ArrowUp'', repeat = True\<rparr>
     (feed [''ArrowUp''] (constructor \<lparr>opt_code = None, opt_timeout = Some 1000\<rparr>)) =
     feed [''ArrowUp''] (constructor \<lparr>opt_code = None, opt_timeout = Some 1000\<rparr>) \<and>
   currentPosition (feed [''ArrowUp''] (constructor \<lparr>opt_code = None, opt_timeout = Some 1000\<rparr>)) = 1"
  using repeat_key_ignored
    [of "\<lparr>key = ''ArrowUp'', repeat = True\<rparr>"
        "feed [''ArrowUp''] (constructor \<lparr>opt_code = None, opt_timeout = Some 1000\<rparr>)"]
  by (simp add: eval_defs)

subsection \<open>C5: a wrong key\<close>

text \<open>
  Claim C5. For every key event that is not a repeat and whose key differs from the key
  expected at the current position: at position 0 no notification is emitted, at a
  positive position exactly one reset notification is emitted; in both cases the
  position becomes 0 and the pending timer is cancelled (the timer that
  \<^verbatim>\<open>timeoutRef\<close> names is cleared; under the timer discipline, which every reachable
  state has, no timer is pending afterwards). The wrong key is not matched against the
  start of the sequence: the position is 0 also when the key is the first key of the
  sequence.
\<close>

theorem wrong_key_resets:
  assumes "\<not> repeat e" and "Some (key e) \<noteq> nextExpectedKey w"
  shows "currentPosition (handleKeydown e w) = 0 \<and>
         dispatched (handleKeydown e w) =
           dispatched w @ (if 0 < currentPosition w then [KonamiReset] else []) \<and>
         timers (handleKeydown e w) = timers (clearTimeout (timeoutRef w) w) \<and>
         (timer_inv w \<longrightarrow> timers (handleKeydown e w) = []) \<and>
         code (handleKeydown e w) = code w \<and>
         timeout (handleKeydown e w) = timeout w"
  using assms by (simp add: handleKeydown_def reset_fields timer_inv_clear)

theorem wrong_key_resets_witness:
  "\<not> repeat (press ''a'') \<and>
   Some (key (press ''a'')) \<noteq>
     nextExpectedKey
       (feed [''a''] (constructor \<lparr>opt_code = Some [''a'', ''b''], opt_timeout = Some 500\<rparr>)) \<and>
   timer_inv
     (feed [''a''] (constructor \<lparr>opt_code = Some [''a'', ''b''], opt_timeout = Some 500\<rparr>)) \<and>
   currentPosition
     (feed [''a''] (constructor \<lparr>opt_code = Some [''a'', ''b''], opt_timeout = Some 500\<rparr>)) = 1 \<and>
   currentPosition (handleKeydown (press ''a'')
     (feed [''a''] (constructor \<lparr>opt_code = Some [''a'', ''b''], opt_timeout = Some 500\<rparr>))) = 0 \<and>
   dispatched (handleKeydown (press ''a'')
     (feed [''a''] (constructor \<lparr>opt_code = Some [''a'', ''b''], opt_timeout = Some 500\<rparr>))) =
     [KonamiProgress 1 2, KonamiReset] \<and>
   timers (handleKeydown (press ''a'')
     (feed [''a''] (constructor \<lparr>opt_code = Some [''a'', ''b''], opt_timeout = Some 500\<rparr>))) = []"
  using wrong_key_resets
    [of "press ''a''"
        "feed [''a''] (constructor \<lparr>opt_code = Some [''a'', ''b''], opt_timeout = Some 500\<rparr>)"]
  by (simp add: eval_defs)

subsection \<open>C6: a correct key\<close>

text \<open>
  Claim C6. For every key event that is not a repeat and whose key equals the key
  expected at the current position (so the position is below the length), the handler
  runs its advance (lines 80-90) and then the end check: the advance increments the
  position by exactly one, cancels the timer that \<^verbatim>\<open>timeoutRef\<close> names, schedules a
  new one for the configured timeout and records its id (under the timer discipline it
  is then the only pending timer), and emits one progress notification with the new
  position and the length of the sequence. Over the whole event exactly one progress
  notification is emitted, that one. When the new position is below the length the end
  check does nothing, and the state after the advance is the state after the event.
\<close>

theorem correct_key_advances:
  assumes "\<not> repeat e" and "nextExpectedKey w = Some (key e)"
  shows "currentPosition w < length (code w) \<and>
         handleKeydown e w = endCheck (advance w) \<and>
         currentPosition (advance w) = Suc (currentPosition w) \<and>
         timeoutRef (advance w) = Some (nextTimerId w) \<and>
         timers (advance w) =
           timers (clearTimeout (timeoutRef w) w) @ [(nextTimerId w, timeout w)] \<and>
         (timer_inv w \<longrightarrow> timers (advance w) = [(nextTimerId w, timeout w)]) \<and>
         dispatched (advance w) =
           dispatched w @ [KonamiProgress (Suc (currentPosition w)) (length (code w))] \<and>
         filter isProgress (drop (length (dispatched w)) (dispatched (handleKeydown e w))) =
           [KonamiProgress (Suc (currentPosition w)) (length (code w))] \<and>
         (Suc (currentPosition w) < length (code w) \<longrightarrow> handleKeydown e w = advance w)"
proof -
  from assms(2) have lt: "currentPosition w < length (code w)"
    by (simp add: nextExpectedKey_def split: if_splits)
  from assms have hk: "handleKeydown e w = endCheck (advance w)"
    by (simp add: handleKeydown_def)
  have notend: "Suc (currentPosition w) < length (code w) \<Longrightarrow> endCheck (advance w) = advance w"
    by (simp add: endCheck_def advance_fields)
  have prog:
    "filter isProgress (drop (length (dispatched w)) (dispatched (endCheck (advance w)))) =
       [KonamiProgress (Suc (currentPosition w)) (length (code w))]"
    by (simp add: endCheck_fields advance_fields isProgress_def)
  show ?thesis
    using lt hk notend prog by (simp add: advance_fields timer_inv_clear)
qed

theorem correct_key_advances_witness:
  "\<not> repeat (press ''b'') \<and>
   nextExpectedKey
     (feed [''a''] (constructor \<lparr>opt_code = Some [''a'', ''b'', ''c''], opt_timeout = Some 1000\<rparr>)) =
     Some (key (press ''b'')) \<and>
   timer_inv
     (feed [''a''] (constructor \<lparr>opt_code = Some [''a'', ''b'', ''c''], opt_timeout = Some 1000\<rparr>)) \<and>
   timers
     (feed [''a''] (constructor \<lparr>opt_code = Some [''a'', ''b'', ''c''], opt_timeout = Some 1000\<rparr>)) =
     [(1, 1000)] \<and>
   currentPosition (handleKeydown (press ''b'')
     (feed [''a''] (constructor \<lparr>opt_code = Some [''a'', ''b'', ''c''], opt_timeout = Some 1000\<rparr>))) = 2 \<and>
   timers (handleKeydown (press ''b'')
     (feed [''a''] (constructor \<lparr>opt_code = Some [''a'', ''b'', ''c''], opt_timeout = Some 1000\<rparr>))) =
     [(2, 1000)] \<and>
   dispatched (handleKeydown (press ''b'')
     (feed [''a''] (constructor \<lparr>opt_code = Some [''a'', ''b'', ''c''], opt_timeout = Some 1000\<rparr>))) =
     [KonamiProgress 1 3, KonamiProgress 2 3]"
  using correct_key_advances
    [of "press ''b''"
        "feed [''a''] (constructor \<lparr>opt_code = Some [''a'', ''b'', ''c''], opt_timeout = Some 1000\<rparr>)"]
  by (simp add: eval_defs)

subsection \<open>C7: one timer, and only while a match is in progress\<close>

text \<open>
  Claim C7. In every state the controller reaches between events (after construction
  and any sequence of key events on the window, timer firings, connections and
  disconnections), at most one timer is pending, and one is pending only when the
  position is positive; hence a pending timer that fires emits a reset notification,
  sets the position to 0, and leaves no timer pending.
\<close>

theorem timer_discipline_reachable:
  "length (timers (run evs (constructor opts))) \<le> 1 \<and>
   (timers (run evs (constructor opts)) \<noteq> [] \<longrightarrow>
      0 < currentPosition (run evs (constructor opts))) \<and>
   (\<forall>h. h \<in> set (map fst (timers (run evs (constructor opts)))) \<longrightarrow>
      dispatched (timerFires h (run evs (constructor opts))) =
        dispatched (run evs (constructor opts)) @ [KonamiReset] \<and>
      currentPosition (timerFires h (run evs (constructor opts))) = 0 \<and>
      timers (timerFires h (run evs (constructor opts))) = [])"
proof -
  have inv: "timer_inv (run evs (constructor opts))" by (rule timer_inv_reachable)
  from timer_inv_cases[OF inv]
  have a: "length (timers (run evs (constructor opts))) \<le> 1"
    and b: "timers (run evs (constructor opts)) \<noteq> [] \<longrightarrow>
            0 < currentPosition (run evs (constructor opts))"
    by auto
  show ?thesis
    using a b timerFires_pending[OF inv] by blast
qed

theorem timer_discipline_reachable_witness:
  "timers (run [HostConnected, Keydown (press ''a'')]
     (constructor \<lparr>opt_code = Some [''a'', ''b'', ''c''], opt_timeout = Some 1000\<rparr>)) = [(1, 1000)] \<and>
   currentPosition (run [HostConnected, Keydown (press ''a'')]
     (constructor \<lparr>opt_code = Some [''a'', ''b'', ''c''], opt_timeout = Some 1000\<rparr>)) = 1 \<and>
   dispatched (timerFires 1 (run [HostConnected, Keydown (press ''a'')]
     (constructor \<lparr>opt_code = Some [''a'', ''b'', ''c''], opt_timeout = Some 1000\<rparr>))) =
     [KonamiProgress 1 3, KonamiReset] \<and>
   currentPosition (timerFires 1 (run [HostConnected, Keydown (press ''a'')]
     (constructor \<lparr>opt_code = Some [''a'', ''b'', ''c''], opt_timeout = Some 1000\<rparr>))) = 0 \<and>
   nextExpectedKey (timerFires 1 (run [HostConnected, Keydown (press ''a'')]
     (constructor \<lparr>opt_code = Some [''a'', ''b'', ''c''], opt_timeout = Some 1000\<rparr>))) = Some ''a'' \<and>
   timers (timerFires 1 (run [HostConnected, Keydown (press ''a'')]
     (constructor \<lparr>opt_code = Some [''a'', ''b'', ''c''], opt_timeout = Some 1000\<rparr>))) = []"
  using timer_discipline_reachable
    [of "[HostConnected, Keydown (press ''a'')]"
        "\<lparr>opt_code = Some [''a'', ''b'', ''c''], opt_timeout = Some 1000\<rparr>"]
  by (simp add: eval_defs)

subsection \<open>C8: the range of the position\<close>

text \<open>
  Claim C8. For every controller with a non-empty sequence of length N: in every state
  reached after construction and any sequence of fully processed events (key events,
  timer firings, connections, disconnections) the position is below N; inside the
  handler the advance can bring it to N at most, and when it does the end check of the
  same event sets it back to 0. The sequence itself never changes.
\<close>

theorem position_below_length:
  assumes "code (constructor opts) \<noteq> []"
  shows "code (run evs (constructor opts)) = code (constructor opts) \<and>
         currentPosition (run evs (constructor opts)) < length (code (constructor opts)) \<and>
         currentPosition (advance (run evs (constructor opts))) \<le>
           length (code (constructor opts)) \<and>
         (currentPosition (advance (run evs (constructor opts))) =
            length (code (constructor opts)) \<longrightarrow>
          currentPosition (endCheck (advance (run evs (constructor opts)))) = 0)"
proof -
  have "currentPosition (constructor opts) = 0"
    by (simp add: constructor_def)
  with assms have "currentPosition (constructor opts) < length (code (constructor opts))"
    by simp
  from run_position[OF this, of evs]
  show ?thesis
    by (simp add: run_code advance_fields endCheck_fields)
qed

theorem position_below_length_witness:
  "code (constructor \<lparr>opt_code = Some [''a'', ''b''], opt_timeout = Some 500\<rparr>) \<noteq> [] \<and>
   currentPosition (run [HostConnected, Keydown (press ''a'')]
     (constructor \<lparr>opt_code = Some [''a'', ''b''], opt_timeout = Some 500\<rparr>)) = 1 \<and>
   currentPosition (advance (run [HostConnected, Keydown (press ''a'')]
     (constructor \<lparr>opt_code = Some [''a'', ''b''], opt_timeout = Some 500\<rparr>))) = 2 \<and>
   currentPosition (endCheck (advance (run [HostConnected, Keydown (press ''a'')]
     (constructor \<lparr>opt_code = Some [''a'', ''b''], opt_timeout = Some 500\<rparr>)))) = 0 \<and>
   currentPosition (run [HostConnected, Keydown (press ''a''), Keydown (press ''b'')]
     (constructor \<lparr>opt_code = Some [''a'', ''b''], opt_timeout = Some 500\<rparr>)) = 0"
  using position_below_length
    [of "\<lparr>opt_code = Some [''a'', ''b''], opt_timeout = Some 500\<rparr>"
        "[HostConnected, Keydown (press ''a'')]"]
  by (simp add: eval_defs)

subsection \<open>C9: detaching\<close>

text \<open>
  Claim C9. \<^verbatim>\<open>hostDisconnected\<close> has no failing path (it is a total function of the
  state) and is idempotent: a second call changes nothing, and on a controller that was
  never connected it changes nothing at all. It cancels the pending timer: after it, in
  any reachable state, no timer is pending, and whatever happens next short of a new
  connection (keys on the window, the firing of any timer id, further disconnections)
  leaves the state as it is, so no notification is emitted after the detachment.
\<close>

theorem hostDisconnected_idempotent_and_final:
  "hostDisconnected (hostDisconnected w) = hostDisconnected w \<and>
   hostDisconnected (constructor opts) = constructor opts \<and>
   timers (hostDisconnected (run evs (constructor opts))) = [] \<and>
   (HostConnected \<notin> set evs' \<longrightarrow>
      run evs' (hostDisconnected (run evs (constructor opts))) =
        hostDisconnected (run evs (constructor opts)) \<and>
      dispatched (run evs' (hostDisconnected (run evs (constructor opts)))) =
        dispatched (run evs (constructor opts)))"
proof -
  have t: "timers (hostDisconnected (run evs (constructor opts))) = []"
    by (simp add: timers_hostDisconnected timer_inv_reachable)
  have l: "\<not> listening (hostDisconnected (run evs (constructor opts)))"
    by (simp add: hostDisconnected_fields)
  have c: "hostDisconnected (constructor opts) = constructor opts"
    by (simp add: hostDisconnected_def clearTimeout_def constructor_def)
  show ?thesis
    using frozen_run[OF l t, of evs'] t c
    by (simp add: hostDisconnected_idem hostDisconnected_fields)
qed

theorem hostDisconnected_idempotent_and_final_witness:
  "HostConnected \<notin> set [TimerFires 1, Keydown (press ''ArrowUp''), HostDisconnected] \<and>
   timers (run [HostConnected, Keydown (press ''ArrowUp'')]
     (constructor \<lparr>opt_code = None, opt_timeout = Some 1000\<rparr>)) = [(1, 1000)] \<and>
   timers (hostDisconnected (run [HostConnected, Keydown (press ''ArrowUp'')]
     (constructor \<lparr>opt_code = None, opt_timeout = Some 1000\<rparr>))) = [] \<and>
   dispatched (run [TimerFires 1, Keydown (press ''ArrowUp''), HostDisconnected]
     (hostDisconnected (run [HostConnected, Keydown (press ''ArrowUp'')]
       (constructor \<lparr>opt_code = None, opt_timeout = Some 1000\<rparr>)))) =
     [KonamiProgress 1 10]"
  using hostDisconnected_idempotent_and_final
    [of "run [HostConnected, Keydown (press ''ArrowUp'')]
           (constructor \<lparr>opt_code = None, opt_timeout = Some 1000\<rparr>)"
        "\<lparr>opt_code = None, opt_timeout = Some 1000\<rparr>"
        "[HostConnected, Keydown (press ''ArrowUp'')]"
        "[TimerFires 1, Keydown (press ''ArrowUp''), HostDisconnected]"]
  by (simp add: eval_defs)

subsection \<open>C10: the controller of an empty sequence\<close>

text \<open>
  Claim C10. The constructor keeps an explicitly supplied empty sequence (the default
  replaces an absent one only). For such a controller, in every reachable state, every
  key event that is not a repeat differs from the expected key (there is none) and
  takes the wrong-key path at position 0: the position is 0 in every reachable state
  and no notification of any kind has been dispatched, so activation is never reached.
\<close>

theorem empty_code_never_notifies:
  assumes "opt_code opts = Some []"
  shows "code (constructor opts) = [] \<and>
         code (run evs (constructor opts)) = [] \<and>
         (\<forall>e. \<not> repeat e \<longrightarrow>
            Some (key e) \<noteq> nextExpectedKey (run evs (constructor opts)) \<and>
            handleKeydown e (run evs (constructor opts)) = reset (run evs (constructor opts))) \<and>
         currentPosition (run evs (constructor opts)) = 0 \<and>
         dispatched (run evs (constructor opts)) = []"
proof -
  have c0: "code (constructor opts) = []"
    using assms by (simp add: constructor_def)
  have p0: "currentPosition (constructor opts) = 0"
    and d0: "dispatched (constructor opts) = []"
    by (simp_all add: constructor_def)
  have c: "code (run evs (constructor opts)) = []"
    by (simp add: run_code c0)
  have pd: "currentPosition (run evs (constructor opts)) = 0 \<and>
            dispatched (run evs (constructor opts)) = dispatched (constructor opts)"
    by (rule empty_run[OF c0 p0])
  have k: "\<And>e. \<not> repeat e \<Longrightarrow>
            Some (key e) \<noteq> nextExpectedKey (run evs (constructor opts)) \<and>
            handleKeydown e (run evs (constructor opts)) = reset (run evs (constructor opts))"
    by (simp add: handleKeydown_def nextExpectedKey_def c)
  show ?thesis
    using c0 c pd d0 k by simp
qed

theorem empty_code_never_notifies_witness:
  "opt_code \<lparr>opt_code = Some [], opt_timeout = None\<rparr> = Some [] \<and>
   code (constructor \<lparr>opt_code = Some [], opt_timeout = None\<rparr>) = [] \<and>
   currentPosition (run [HostConnected, Keydown (press ''ArrowUp''), Keydown (press ''a'')]
     (constructor \<lparr>opt_code = Some [], opt_timeout = None\<rparr>)) = 0 \<and>
   dispatched (run [HostConnected, Keydown (press ''ArrowUp''), Keydown (press ''a'')]
     (constructor \<lparr>opt_code = Some [], opt_timeout = None\<rparr>)) = []"
  using empty_code_never_notifies
    [of "\<lparr>opt_code = Some [], opt_timeout = None\<rparr>"
        "[HostConnected, Keydown (press ''ArrowUp''), Keydown (press ''a'')]"]
  by (simp add: eval_defs)

end
